theory Spec2Isabelle
  imports Complex_Main "HOL-Library.Word"
begin

unbundle bit_operations_syntax

section \<open>Book image upload pipeline (scripts/books/upload-book-image-library.py)\<close>

text \<open>
  A shallow embedding of the optimise / size-budget / upload / resume core of the script.
  Python's unbounded integers are \<^typ>\<open>int\<close>. Calls into Pillow, requests, the file system
  and the clock are inputs of the model: the outcome of each such call is a value handed to
  the function that makes the call in the source, and every exception of the source is a
  branch of the model.
\<close>

subsection \<open>Exceptions and the optimiser's result\<close>

datatype exn =
    UnidentifiedImageError
  | RuntimeError string
  | RequestException string
  | OtherException string

record optimized_image =
  output_bytes :: "nat list"
  output_ext :: string
  width :: int
  height :: int
  mode :: string

subsection \<open>Streaming TIFF fallback: the strides (optimize_tiff_streaming, lines 330-338)\<close>



subsection \<open>Adaptive size-budget loop (main, lines 576-603)\<close>

text \<open>
  \<^verbatim>\<open>int(cur_px * 0.85)\<close>: the product with the double \<open>0.85\<close>, truncated towards zero.
  It is \<open>85 * x / 100\<close> truncated towards zero for every pixel dimension a file can have
  (the double product rounds to the exact integer when \<open>x\<close> is a multiple of 20, and is at
  least \<open>1/20\<close> away from an integer otherwise).
\<close>

definition scale85 :: "int \<Rightarrow> int" where
  "scale85 x = (if 0 \<le> x then (85 * x) div 100 else - ((85 * (- x)) div 100))"

definition shrink_px :: "int \<Rightarrow> int" where
  "shrink_px cur_px = max 800 (scale85 cur_px)"

definition shrink_q :: "int \<Rightarrow> int" where
  "shrink_q cur_q = max 65 (cur_q - 4)"

record loop_state =
  cur_px :: int
  cur_q :: int
  last_err :: "exn option"
  opt :: "optimized_image option"
  attempts :: "(int \<times> int) list"

text \<open>
  The \<^verbatim>\<open>for _ in range(8)\<close> loop, with the remaining iterations as the first argument.
  \<open>optimize k px q\<close> is the outcome of the \<open>k\<close>-th call
  \<^verbatim>\<open>optimize_image(path, max_px=px, jpeg_quality=q, alpha_mode=...)\<close> for the file at hand:
  \<open>Inl e\<close> when it raises \<open>e\<close>. The field \<open>attempts\<close> records the parameters of every call
  made, in order.
\<close>

fun adaptive_loop ::
  "nat \<Rightarrow> (nat \<Rightarrow> int \<Rightarrow> int \<Rightarrow> exn + optimized_image) \<Rightarrow> int \<Rightarrow> loop_state \<Rightarrow> loop_state" where
  "adaptive_loop 0 optimize max_bytes st = st"
| "adaptive_loop (Suc n) optimize max_bytes st =
     (let st1 = st\<lparr>attempts := attempts st @ [(cur_px st, cur_q st)]\<rparr> in
      case optimize (length (attempts st)) (cur_px st) (cur_q st) of
        Inr out \<Rightarrow>
          if int (length (output_bytes out)) \<le> max_bytes
          then st1\<lparr>opt := Some out\<rparr>
          else adaptive_loop n optimize max_bytes
                 (st1\<lparr>opt := Some out, cur_px := shrink_px (cur_px st), cur_q := shrink_q (cur_q st)\<rparr>)
      | Inl e \<Rightarrow>
          adaptive_loop n optimize max_bytes
            (st1\<lparr>last_err := Some e, cur_px := shrink_px (cur_px st), cur_q := shrink_q (cur_q st)\<rparr>))"

datatype convert_error =
    FailedToConvert "exn option"
  | StillTooLarge nat

definition max_bytes_of :: "int \<Rightarrow> int" where
  "max_bytes_of max_upload_mb = max_upload_mb * 1024 * 1024"

definition loop_init :: "int \<Rightarrow> int \<Rightarrow> loop_state" where
  "loop_init max_px jpeg_quality =
     \<lparr>cur_px = max_px, cur_q = jpeg_quality, last_err = None, opt = None, attempts = []\<rparr>"

definition run_loop ::
  "(nat \<Rightarrow> int \<Rightarrow> int \<Rightarrow> exn + optimized_image) \<Rightarrow> int \<Rightarrow> int \<Rightarrow> int \<Rightarrow> loop_state" where
  "run_loop optimize max_upload_mb max_px jpeg_quality =
     adaptive_loop 8 optimize (max_bytes_of max_upload_mb) (loop_init max_px jpeg_quality)"

text \<open>
  The whole conversion of one file: the loop, then the two checks after it. The result is
  the image whose bytes become the upload body, or the error that ends the run.
\<close>

definition convert_file ::
  "(nat \<Rightarrow> int \<Rightarrow> int \<Rightarrow> exn + optimized_image) \<Rightarrow> int \<Rightarrow> int \<Rightarrow> int \<Rightarrow> convert_error + optimized_image" where
  "convert_file optimize max_upload_mb max_px jpeg_quality =
     (let st = run_loop optimize max_upload_mb max_px jpeg_quality in
      case opt st of
        None \<Rightarrow> Inl (FailedToConvert (last_err st))
      | Some out \<Rightarrow>
          if int (length (output_bytes out)) > max_bytes_of max_upload_mb
          then Inl (StillTooLarge (length (output_bytes out)))
          else Inr out)"

subsection \<open>Name sanitizer (safe_storage_filename, lines 162-190)\<close>

text \<open>
  A Python string is a list of code points; \<^typ>\<open>char\<close> covers the code points below 256
  (Latin-1), on which \<^verbatim>\<open>str.strip\<close>, \<^verbatim>\<open>str.lower\<close> and the two regular expressions are
  modelled exactly. \<^verbatim>\<open>os.path.splitext\<close> is the POSIX one (separator \<open>/\<close>).
  \<^verbatim>\<open>hashlib.sha1(b).hexdigest()\<close> is the parameter \<open>hexdigest\<close>.
\<close>

definition py_isspace :: "char \<Rightarrow> bool" where
  "py_isspace c = (let n = (of_char c :: nat) in
     (9 \<le> n \<and> n \<le> 13) \<or> (28 \<le> n \<and> n \<le> 32) \<or> n = 133 \<or> n = 160)"

definition py_strip :: "string \<Rightarrow> string" where
  "py_strip s = rev (dropWhile py_isspace (rev (dropWhile py_isspace s)))"

definition py_lower_char :: "char \<Rightarrow> char" where
  "py_lower_char c = (let n = (of_char c :: nat) in
     if (65 \<le> n \<and> n \<le> 90) \<or> (192 \<le> n \<and> n \<le> 222 \<and> n \<noteq> 215) then char_of (n + 32) else c)"

definition py_lower :: "string \<Rightarrow> string" where
  "py_lower s = map py_lower_char s"

definition safe_char :: "char \<Rightarrow> bool" where
  "safe_char c = (let n = (of_char c :: nat) in
     (65 \<le> n \<and> n \<le> 90) \<or> (97 \<le> n \<and> n \<le> 122) \<or> (48 \<le> n \<and> n \<le> 57)
     \<or> c = CHR ''.'' \<or> c = CHR ''_'' \<or> c = CHR ''-'')"

function sub_unsafe :: "string \<Rightarrow> string" where
  "sub_unsafe [] = []"
| "sub_unsafe (c # cs) =
     (if safe_char c then c # sub_unsafe cs
      else CHR ''_'' # sub_unsafe (dropWhile (\<lambda>d. \<not> safe_char d) cs))"
  by pat_completeness auto
termination
  by (relation "measure length") (auto simp: length_dropWhile_le less_Suc_eq_le)

function collapse_underscores :: "string \<Rightarrow> string" where
  "collapse_underscores [] = []"
| "collapse_underscores (c # cs) =
     (if c = CHR ''_'' then CHR ''_'' # collapse_underscores (dropWhile (\<lambda>d. d = CHR ''_'') cs)
      else c # collapse_underscores cs)"
  by pat_completeness auto
termination
  by (relation "measure length") (auto simp: length_dropWhile_le less_Suc_eq_le)

definition strip_chars :: "char list \<Rightarrow> string \<Rightarrow> string" where
  "strip_chars cs s = rev (dropWhile (\<lambda>c. c \<in> set cs) (rev (dropWhile (\<lambda>c. c \<in> set cs) s)))"

fun rfind :: "char \<Rightarrow> string \<Rightarrow> int" where
  "rfind c [] = - 1"
| "rfind c (d # ds) = (let r = rfind c ds in if r \<ge> 0 then r + 1 else if d = c then 0 else - 1)"

definition splitext :: "string \<Rightarrow> string \<times> string" where
  "splitext p =
     (let sepIndex = rfind CHR ''/'' p; dotIndex = rfind CHR ''.'' p in
      if dotIndex > sepIndex
         \<and> filter (\<lambda>c. c \<noteq> CHR ''.'') (take (nat (dotIndex - (sepIndex + 1))) (drop (nat (sepIndex + 1)) p)) \<noteq> []
      then (take (nat dotIndex) p, drop (nat dotIndex) p)
      else (p, []))"

definition utf8_encode :: "string \<Rightarrow> nat list" where
  "utf8_encode s = concat (map (\<lambda>c. let n = (of_char c :: nat) in
       if n < 128 then [n] else [192 + n div 64, 128 + n mod 64]) s)"

definition safe_storage_filename :: "(nat list \<Rightarrow> string) \<Rightarrow> string \<Rightarrow> int \<Rightarrow> string" where
  "safe_storage_filename hexdigest name max_len =
     (let raw0 = py_strip name;
          raw = (if raw0 = [] then ''file'' else raw0);
          base = fst (splitext raw);
          ext = py_lower (snd (splitext raw));
          safe_base0 = strip_chars ''._-'' (collapse_underscores (sub_unsafe base));
          safe_base = (if safe_base0 = [] then ''file'' else safe_base0);
          max_base = max 16 (max_len - int (length ext))
      in (if int (length safe_base) > max_base
          then (let h = take 10 (hexdigest (utf8_encode raw));
                    keep = max 8 (max_base - (int (length h) + 1))
                in take (nat keep) safe_base @ ''_'' @ h)
          else safe_base) @ ext)"

subsection \<open>Upload retrier (storage_upload_with_retries, lines 409-444)\<close>

text \<open>
  \<^verbatim>\<open>except (requests.RequestException, RuntimeError)\<close>: the exceptions the retrier catches.
  Any other exception leaves the function at once.
\<close>

fun caught_by_retrier :: "exn \<Rightarrow> bool" where
  "caught_by_retrier (RequestException m) = True"
| "caught_by_retrier (RuntimeError m) = True"
| "caught_by_retrier e = False"

text \<open>
  \<^verbatim>\<open>min(60.0, 1.5 ** attempt)\<close> for \<open>attempt \<ge> 1\<close>. The power is exact in rational
  arithmetic; the double \<open>1.5 ** attempt\<close> is exact up to attempt 33 and above 60 from
  attempt 11 on, so the minimum is the same. From attempt 1751 on the double power overflows
  and Python raises OverflowError before \<^verbatim>\<open>min\<close> is applied.
\<close>

definition backoff_delay :: "int \<Rightarrow> exn + rat" where
  "backoff_delay attempt =
     (if 1751 \<le> attempt then Inl (OtherException ''OverflowError'')
      else Inr (min 60 ((3 / 2) ^ nat attempt)))"

record retry_run =
  outcome :: "exn option"
  calls :: nat
  sleeps :: "rat list"

text \<open>
  The \<^verbatim>\<open>while True\<close> loop. \<open>transport k\<close> is the outcome of the \<open>k\<close>-th call of
  \<^verbatim>\<open>storage_upload\<close> (\<open>None\<close>: it returned; \<open>Some e\<close>: it raised \<open>e\<close>). The result records
  how the function ended (\<open>None\<close>: returned), how many calls of \<^verbatim>\<open>storage_upload\<close> it made
  and the delays it slept, in order.
\<close>

function retry_loop :: "(nat \<Rightarrow> exn option) \<Rightarrow> int \<Rightarrow> int \<Rightarrow> nat \<Rightarrow> rat list \<Rightarrow> retry_run" where
  "retry_loop transport retries attempt n slept =
     (case transport n of
        None \<Rightarrow> \<lparr>outcome = None, calls = Suc n, sleeps = slept\<rparr>
      | Some e \<Rightarrow>
          if \<not> caught_by_retrier e then \<lparr>outcome = Some e, calls = Suc n, sleeps = slept\<rparr>
          else if attempt + 1 > retries then \<lparr>outcome = Some e, calls = Suc n, sleeps = slept\<rparr>
          else (case backoff_delay (attempt + 1) of
                  Inl overflow \<Rightarrow> \<lparr>outcome = Some overflow, calls = Suc n, sleeps = slept\<rparr>
                | Inr sleep_s \<Rightarrow> retry_loop transport retries (attempt + 1) (Suc n) (slept @ [sleep_s])))"
  by pat_completeness auto
termination
  by (relation "measure (\<lambda>(transport, retries, attempt, n, slept). nat (retries - attempt))") auto

declare retry_loop.simps [simp del]

definition storage_upload_with_retries :: "(nat \<Rightarrow> exn option) \<Rightarrow> int \<Rightarrow> retry_run" where
  "storage_upload_with_retries transport retries = retry_loop transport retries 0 0 []"

section \<open>Verification\<close>

subsection \<open>Strides of the streaming fallback\<close>







subsection \<open>The adaptive size-budget loop\<close>

lemma shrink_px_ge: "800 \<le> shrink_px p"
  by (simp add: shrink_px_def)

lemma shrink_q_ge: "65 \<le> shrink_q q"
  by (simp add: shrink_q_def)

lemma adaptive_loop_attempts:
  "\<exists>new. attempts (adaptive_loop n f mb st) = attempts st @ new \<and> length new \<le> n
      \<and> (0 < n \<longrightarrow> new \<noteq> [] \<and> hd new = (cur_px st, cur_q st))
      \<and> (\<forall>pq \<in> set (tl new). 800 \<le> fst pq \<and> 65 \<le> snd pq)
      \<and> (2 \<le> length new \<longrightarrow> new ! 1 = (shrink_px (cur_px st), shrink_q (cur_q st)))"
proof (induction n arbitrary: st)
  case 0
  show ?case by simp
next
  case (Suc n)
  let ?pq = "(cur_px st, cur_q st)"
  let ?st1 = "st\<lparr>attempts := attempts st @ [?pq]\<rparr>"
  have step: "\<exists>new. attempts (adaptive_loop n f mb st2) = attempts st @ (?pq # new) \<and> length new \<le> n
      \<and> (\<forall>pq \<in> set new. 800 \<le> fst pq \<and> 65 \<le> snd pq)
      \<and> (new \<noteq> [] \<longrightarrow> hd new = (shrink_px (cur_px st), shrink_q (cur_q st)))"
    if st2: "attempts st2 = attempts st @ [?pq]" "cur_px st2 = shrink_px (cur_px st)"
            "cur_q st2 = shrink_q (cur_q st)" for st2
  proof -
    from Suc.IH[of st2] obtain new where
      n: "attempts (adaptive_loop n f mb st2) = attempts st2 @ new" "length new \<le> n"
         "0 < n \<longrightarrow> new \<noteq> [] \<and> hd new = (cur_px st2, cur_q st2)"
         "\<forall>pq \<in> set (tl new). 800 \<le> fst pq \<and> 65 \<le> snd pq"
      by blast
    have second: "new \<noteq> [] \<longrightarrow> hd new = (shrink_px (cur_px st), shrink_q (cur_q st))"
      using n(2,3) st2 by (cases n) auto
    have "\<forall>pq \<in> set new. 800 \<le> fst pq \<and> 65 \<le> snd pq"
    proof (cases new)
      case Nil
      then show ?thesis by simp
    next
      case (Cons a as)
      with second have "a = (shrink_px (cur_px st), shrink_q (cur_q st))" by simp
      with n(4) Cons show ?thesis by (auto simp: shrink_px_ge shrink_q_ge)
    qed
    with n(1,2) second st2(1) show ?thesis by (intro exI[of _ new]) simp
  qed
  have rec: ?case
    if eq: "adaptive_loop (Suc n) f mb st = adaptive_loop n f mb st2"
      and st2: "attempts st2 = attempts st @ [?pq]" "cur_px st2 = shrink_px (cur_px st)"
               "cur_q st2 = shrink_q (cur_q st)" for st2
  proof -
    from step[OF st2] obtain new where
      n: "attempts (adaptive_loop n f mb st2) = attempts st @ (?pq # new)" "length new \<le> n"
         "\<forall>pq \<in> set new. 800 \<le> fst pq \<and> 65 \<le> snd pq"
         "new \<noteq> [] \<longrightarrow> hd new = (shrink_px (cur_px st), shrink_q (cur_q st))"
      by blast
    have "2 \<le> length (?pq # new) \<longrightarrow> (?pq # new) ! 1 = (shrink_px (cur_px st), shrink_q (cur_q st))"
      using n(4) by (cases new) auto
    with n(1,2,3) eq show ?thesis by (intro exI[of _ "?pq # new"]) simp
  qed
  show ?case
  proof (cases "f (length (attempts st)) (cur_px st) (cur_q st)")
    case (Inl e)
    show ?thesis
      by (rule rec[of "?st1\<lparr>last_err := Some e, cur_px := shrink_px (cur_px st), cur_q := shrink_q (cur_q st)\<rparr>"])
         (simp_all add: Inl Let_def)
  next
    case (Inr out)
    show ?thesis
    proof (cases "int (length (output_bytes out)) \<le> mb")
      case True
      then have "attempts (adaptive_loop (Suc n) f mb st) = attempts st @ [?pq]"
        using Inr by (simp add: Let_def)
      then show ?thesis by (intro exI[of _ "[?pq]"]) simp
    next
      case False
      show ?thesis
        by (rule rec[of "?st1\<lparr>opt := Some out, cur_px := shrink_px (cur_px st), cur_q := shrink_q (cur_q st)\<rparr>"])
           (simp_all add: Inr False Let_def)
    qed
  qed
qed

lemma run_loop_attempts:
  "\<exists>new. attempts (run_loop f mb px q) = new \<and> length new \<le> 8
      \<and> new \<noteq> [] \<and> hd new = (px, q)
      \<and> (\<forall>pq \<in> set (tl new). 800 \<le> fst pq \<and> 65 \<le> snd pq)
      \<and> (2 \<le> length new \<longrightarrow> new ! 1 = (shrink_px px, shrink_q q))"
  using adaptive_loop_attempts[of 8 f "max_bytes_of mb" "loop_init px q"]
  by (auto simp: run_loop_def loop_init_def)

text \<open>
  Claim C1. For every file routed through conversion (every behaviour of the optimiser) and
  every ceiling, the loop calls the optimiser at most 8 times, and the conversion either
  yields an image whose output is at most the ceiling, or fails with an error: a body larger
  than the ceiling is never handed on for upload.
\<close>

theorem adaptive_loop_respects_ceiling:
  "length (attempts (run_loop optimize max_upload_mb max_px jpeg_quality)) \<le> 8
   \<and> ((\<exists>out. convert_file optimize max_upload_mb max_px jpeg_quality = Inr out
             \<and> int (length (output_bytes out)) \<le> max_bytes_of max_upload_mb)
        \<or> (\<exists>e. convert_file optimize max_upload_mb max_px jpeg_quality = Inl e))"
proof -
  have "length (attempts (run_loop optimize max_upload_mb max_px jpeg_quality)) \<le> 8"
    using run_loop_attempts[of optimize max_upload_mb max_px jpeg_quality] by blast
  moreover have "(\<exists>out. convert_file optimize max_upload_mb max_px jpeg_quality = Inr out
             \<and> int (length (output_bytes out)) \<le> max_bytes_of max_upload_mb)
        \<or> (\<exists>e. convert_file optimize max_upload_mb max_px jpeg_quality = Inl e)"
    by (simp add: convert_file_def Let_def split: option.splits)
  ultimately show ?thesis by blast
qed

text \<open>
  Claim C10. The first attempt uses the configured parameters. Every later attempt uses a
  pixel dimension of at least 800 and a quality of at least 65. If the configured quality
  is below 65 and a second attempt is made, it runs at quality 65, above the configured one.
\<close>

theorem retry_attempts_have_floors:
  "hd (attempts (run_loop optimize max_upload_mb max_px jpeg_quality)) = (max_px, jpeg_quality)
   \<and> (\<forall>pq \<in> set (tl (attempts (run_loop optimize max_upload_mb max_px jpeg_quality))).
         800 \<le> fst pq \<and> 65 \<le> snd pq)
   \<and> (jpeg_quality < 65
        \<and> 2 \<le> length (attempts (run_loop optimize max_upload_mb max_px jpeg_quality)) \<longrightarrow>
        snd (attempts (run_loop optimize max_upload_mb max_px jpeg_quality) ! 1) = 65
        \<and> jpeg_quality < snd (attempts (run_loop optimize max_upload_mb max_px jpeg_quality) ! 1))"
proof -
  from run_loop_attempts[of optimize max_upload_mb max_px jpeg_quality]
  have a: "hd (attempts (run_loop optimize max_upload_mb max_px jpeg_quality)) = (max_px, jpeg_quality)"
    and b: "\<forall>pq \<in> set (tl (attempts (run_loop optimize max_upload_mb max_px jpeg_quality))).
         800 \<le> fst pq \<and> 65 \<le> snd pq"
    and c: "2 \<le> length (attempts (run_loop optimize max_upload_mb max_px jpeg_quality)) \<longrightarrow>
       attempts (run_loop optimize max_upload_mb max_px jpeg_quality) ! 1
         = (shrink_px max_px, shrink_q jpeg_quality)"
    by blast+
  have "jpeg_quality < 65 \<Longrightarrow> shrink_q jpeg_quality = 65"
    by (simp add: shrink_q_def)
  with a b c show ?thesis by auto
qed

theorem retry_attempts_have_floors_witness:
  "(60::int) < 65
   \<and> 2 \<le> length (attempts (run_loop (\<lambda>k px q. Inl UnidentifiedImageError) 40 3000 60))
   \<and> (2550, 65) \<in> set (tl (attempts (run_loop (\<lambda>k px q. Inl UnidentifiedImageError) 40 3000 60)))
   \<and> attempts (run_loop (\<lambda>k px q. Inl UnidentifiedImageError) 40 3000 60) ! 1 = (2550, 65)
   \<and> (60::int) < snd (attempts (run_loop (\<lambda>k px q. Inl UnidentifiedImageError) 40 3000 60) ! 1)"
proof -
  have ev: "attempts (run_loop (\<lambda>k px q. Inl UnidentifiedImageError) 40 3000 60) =
    [(3000, 60), (2550, 65), (2167, 65), (1841, 65), (1564, 65), (1329, 65), (1129, 65), (959, 65)]"
    by code_simp
  from retry_attempts_have_floors[of "\<lambda>k px q. Inl UnidentifiedImageError" 40 3000 60]
  show ?thesis unfolding ev by simp
qed

end
